theory Spec2Isabelle
  imports Main "HOL-Library.Word" "HOL-Library.Sublist"
begin

section \<open>The backing table\<close>

text \<open>
  The program keeps no state of its own: every operation is one SQL statement sent through
  the global handle \<open>db\<close>. The state of the model is therefore the state of the database as
  far as the statements of \<open>main.go\<close> can see it: either the table \<open>postboard_kvs\<close> does
  not exist, or it exists with the schema written in \<open>prepareDatabase\<close> and holds a list
  of rows.

  Conventions of the model:
  \<^item> a Go \<open>string\<close> is a \<open>string\<close> (one \<open>char\<close> per character), a \<open>[]byte\<close> is a list of
    8-bit words;
  \<^item> rows are kept in the order in which they were inserted, and a \<open>SELECT\<close> without
    \<open>ORDER BY\<close> reads them in that order;
  \<^item> keys are compared character by character (a binary collation);
  \<^item> the server runs in strict SQL mode (the default): a value that does not fit its
    column is refused with an error instead of being cut;
  \<^item> \<open>CURRENT_TIMESTAMP\<close> is the clock reading \<open>now\<close> handed to the statement;
  \<^item> connection failures are outside the model.
\<close>

type_synonym byte = "8 word"

record postboard_kvs =
  col_k :: string
  col_v :: "byte list"
  created_at :: nat

type_synonym database = "postboard_kvs list option"

text \<open>
  The errors the statements can return: \<open>ErrNoRows\<close> is \<open>sql.ErrNoRows\<close> (what
  \<open>QueryRow(...).Scan\<close> returns when the result set is empty), \<open>NoSuchTable\<close> and
  \<open>DataTooLong\<close> are the server's errors 1146 and 1406, \<open>KeyIsEmpty\<close> is the
  \<open>fmt.Errorf("key is empty")\<close> of the \<open>set\<close> and \<open>get\<close> commands.
\<close>

datatype error = ErrNoRows | NoSuchTable | DataTooLong | KeyIsEmpty

text \<open>Column widths of the schema: \<open>k VARCHAR(255)\<close>, \<open>v BLOB\<close> (at most \<open>2^16 - 1\<close> bytes).\<close>

definition varchar_max :: nat where
  "varchar_max = 255"

definition blob_max :: nat where
  "blob_max = 65535"

subsection \<open>prepareDatabase\<close>

text \<open>\<open>CREATE TABLE IF NOT EXISTS\<close>: creates the empty table when it is absent, and
  otherwise leaves the existing one alone. Returns the error (none) and the new state.
  \<open>main\<close> defines the function but never calls it, so a command can meet a database
  without the table; the server then answers every statement with \<open>NoSuchTable\<close>.\<close>

definition prepareDatabase :: "database \<Rightarrow> error option \<times> database" where
  "prepareDatabase db = (case db of None \<Rightarrow> (None, Some []) | Some rows \<Rightarrow> (None, Some rows))"

subsection \<open>putKeyValue\<close>

text \<open>\<open>INSERT ... ON DUPLICATE KEY UPDATE v = VALUES(v)\<close> on a table whose primary key is
  \<open>k\<close>: the row that already has the key gets the new \<open>v\<close> and keeps everything else;
  when no row has the key, a new row is appended, its \<open>created_at\<close> filled by the column
  default.\<close>

fun insert_on_duplicate_key_update ::
  "nat \<Rightarrow> string \<Rightarrow> byte list \<Rightarrow> postboard_kvs list \<Rightarrow> postboard_kvs list" where
  "insert_on_duplicate_key_update now key val [] =
     [\<lparr>col_k = key, col_v = val, created_at = now\<rparr>]"
| "insert_on_duplicate_key_update now key val (r # rs) =
     (if col_k r = key then r\<lparr>col_v := val\<rparr> # rs
      else r # insert_on_duplicate_key_update now key val rs)"

definition putKeyValue ::
  "nat \<Rightarrow> database \<Rightarrow> string \<Rightarrow> byte list \<Rightarrow> error option \<times> database" where
  "putKeyValue now db key val =
     (case db of
        None \<Rightarrow> (Some NoSuchTable, None)
      | Some rows \<Rightarrow>
          if varchar_max < length key \<or> blob_max < length val
          then (Some DataTooLong, Some rows)
          else (None, Some (insert_on_duplicate_key_update now key val rows)))"

subsection \<open>getKey\<close>

text \<open>\<open>SELECT v FROM postboard_kvs WHERE k = ?\<close>, read with \<open>QueryRow\<close> and \<open>Scan\<close>: the
  first row of the result, or \<open>sql.ErrNoRows\<close> when the result is empty.\<close>

definition getKey :: "database \<Rightarrow> string \<Rightarrow> error + byte list" where
  "getKey db key =
     (case db of
        None \<Rightarrow> Inl NoSuchTable
      | Some rows \<Rightarrow>
          (case filter (\<lambda>r. col_k r = key) rows of
             [] \<Rightarrow> Inl ErrNoRows
           | r # _ \<Rightarrow> Inr (col_v r)))"

subsection \<open>listKeysWithPrefix\<close>

text \<open>
  The SQL operator \<open>LIKE\<close>, pattern first: \<open>%\<close> matches any run of characters, \<open>_\<close> any
  single character, and the backslash (the default escape character) makes the character
  after it literal; a backslash that ends the pattern stands for itself.
\<close>

fun sql_like :: "string \<Rightarrow> string \<Rightarrow> bool" where
  "sql_like [] s = (s = [])"
| "sql_like (p # ps) [] = (p = CHR ''%'' \<and> sql_like ps [])"
| "sql_like (p # ps) (c # cs) =
     (if p = CHR ''%'' then sql_like ps (c # cs) \<or> sql_like (p # ps) cs
      else if p = CHR ''_'' then sql_like ps cs
      else if p = CHR 0x5C then
        (case ps of
           [] \<Rightarrow> c = CHR 0x5C \<and> cs = []
         | q # qs \<Rightarrow> c = q \<and> sql_like qs cs)
      else c = p \<and> sql_like ps cs)"

text \<open>\<open>SELECT k FROM postboard_kvs WHERE k LIKE ? LIMIT n\<close>.\<close>

definition select_k_like_limit :: "postboard_kvs list \<Rightarrow> string \<Rightarrow> nat \<Rightarrow> string list" where
  "select_k_like_limit rows pat n = take n (map col_k (filter (\<lambda>r. sql_like pat (col_k r)) rows))"

text \<open>The loop \<open>for rows.Next() { ...; keys = append(keys, key) }\<close>.\<close>

fun scan_rows :: "string list \<Rightarrow> string list \<Rightarrow> string list" where
  "scan_rows [] keys = keys"
| "scan_rows (key # rest) keys = scan_rows rest (keys @ [key])"

definition listKeysWithPrefix :: "database \<Rightarrow> string \<Rightarrow> error + string list" where
  "listKeysWithPrefix db pfx =
     (case db of
        None \<Rightarrow> Inl NoSuchTable
      | Some rows \<Rightarrow> Inr (scan_rows (select_k_like_limit rows (pfx @ ''%'') 1000) []))"

section \<open>The commands\<close>

text \<open>
  Standard output is the text printed so far. A command returns the new output and the
  error it hands back to the command runner; \<open>set\<close> and \<open>del\<close> also return the database.
\<close>

definition Println :: "string \<Rightarrow> string \<Rightarrow> string" where
  "Println out s = out @ s @ [CHR 0x0A]"

definition bytes_of :: "string \<Rightarrow> byte list" where
  "bytes_of s = map (\<lambda>c. of_nat (of_char c)) s"

definition string_of :: "byte list \<Rightarrow> string" where
  "string_of bs = map (\<lambda>b. char_of (unat b)) bs"

subsection \<open>set\<close>

text \<open>
  \<open>key_arg\<close> and \<open>value_arg\<close> are \<open>c.Arg("key").String()\<close> and \<open>c.Arg("value").String()\<close>
  (empty when the argument is missing); \<open>scanned\<close> is what \<open>fmt.Scanln(&value)\<close> leaves
  in \<open>value\<close>.
\<close>

definition set_command ::
  "nat \<Rightarrow> database \<Rightarrow> string \<Rightarrow> string \<Rightarrow> string \<Rightarrow> error option \<times> database" where
  "set_command now db key_arg value_arg scanned =
     (if key_arg = [] then (Some KeyIsEmpty, db)
      else
        let val = (if value_arg = [] then scanned else value_arg)
        in putKeyValue now db key_arg (bytes_of val))"

subsection \<open>get\<close>

text \<open>
  The option is bound by \<open>c.BoolOpt(&keysOnly, "k", "", true, "Only print keys")\<close>, whose
  fourth argument is the default value: binding stores it into \<open>keysOnly\<close>, and parsing the
  command line overwrites it only when the option is given (\<open>-k\<close> gives \<open>true\<close>,
  \<open>-k=false\<close> gives \<open>false\<close>). \<open>given\<close> is \<open>None\<close> when the option is not on the command
  line.
\<close>

definition BoolOpt :: "bool \<Rightarrow> bool option \<Rightarrow> bool" where
  "BoolOpt defVal given = (case given of None \<Rightarrow> defVal | Some b \<Rightarrow> b)"

definition keysOnly :: "bool option \<Rightarrow> bool" where
  "keysOnly given = BoolOpt True given"

text \<open>The loop \<open>for _, key := range keys\<close> of the wildcard branch.\<close>

fun print_keys :: "bool \<Rightarrow> database \<Rightarrow> string list \<Rightarrow> string \<Rightarrow> string \<times> error option" where
  "print_keys ko db [] out = (out, None)"
| "print_keys ko db (key # keys) out =
     (if ko then print_keys ko db keys (Println out key)
      else
        (case getKey db key of
           Inl e \<Rightarrow> (out, Some e)
         | Inr val \<Rightarrow> print_keys ko db keys (Println out (key @ ''='' @ string_of val))))"

definition get_command :: "bool option \<Rightarrow> database \<Rightarrow> string \<Rightarrow> string \<times> error option" where
  "get_command given db key =
     (if key = [] then ([], Some KeyIsEmpty)
      else if last key = CHR ''*'' then
        (case listKeysWithPrefix db (butlast key) of
           Inl e \<Rightarrow> ([], Some e)
         | Inr keys \<Rightarrow> print_keys (keysOnly given) db keys [])
      else
        (case getKey db key of
           Inl e \<Rightarrow> ([], Some e)
         | Inr val \<Rightarrow> (Println [] (string_of val), None)))"

subsection \<open>del\<close>

definition del_command :: "database \<Rightarrow> string list \<Rightarrow> string \<times> error option \<times> database" where
  "del_command db args =
     (if length args \<noteq> 1
      then (Println [] ''Invalid number of arguments. Usage: pb del [key]'', None, db)
      else
        let key = args ! 0
        in (Println [] (''Deleting configuration '' @ key @ ''...''), None, db))"

section \<open>Sequences of operations\<close>

text \<open>
  One process runs one command; a history of the store is a sequence of operations, each
  applied to the state the previous one left. \<open>getKey\<close> and \<open>listKeysWithPrefix\<close> send a
  \<open>SELECT\<close> and nothing else, so they leave the state as it is.
\<close>

datatype operation =
    EnsureSchema
  | Put nat string "byte list"
  | Get string
  | ListByPrefix string
  | Del "string list"

fun apply_operation :: "database \<Rightarrow> operation \<Rightarrow> database" where
  "apply_operation db EnsureSchema = snd (prepareDatabase db)"
| "apply_operation db (Put now key val) = snd (putKeyValue now db key val)"
| "apply_operation db (Get key) = db"
| "apply_operation db (ListByPrefix pfx) = db"
| "apply_operation db (Del args) = snd (snd (del_command db args))"

definition one_record_per_key :: "database \<Rightarrow> bool" where
  "one_record_per_key db = (case db of None \<Rightarrow> True | Some rows \<Rightarrow> distinct (map col_k rows))"

section \<open>Facts about the statements\<close>

lemma scan_rows_append: "scan_rows rs keys = keys @ rs"
  by (induction rs arbitrary: keys) simp_all

lemma listKeysWithPrefix_Some:
  "listKeysWithPrefix (Some rows) pfx =
     Inr (take 1000 (map col_k (filter (\<lambda>r. sql_like (pfx @ ''%'') (col_k r)) rows)))"
  by (simp add: listKeysWithPrefix_def select_k_like_limit_def scan_rows_append)

lemma sql_like_percent: "sql_like ''%'' s"
  by (induction s) simp_all

text \<open>A prefix without \<open>%\<close>, \<open>_\<close> and backslash is matched literally.\<close>

lemma sql_like_plain_prefix:
  "set pfx \<inter> {CHR ''%'', CHR ''_'', CHR 0x5C} = {} \<Longrightarrow>
   sql_like (pfx @ ''%'') s = prefix pfx s"
proof (induction pfx arbitrary: s)
  case Nil
  then show ?case by (simp add: sql_like_percent)
next
  case (Cons p ps)
  then have plain: "p \<noteq> CHR ''%''" "p \<noteq> CHR ''_''" "p \<noteq> CHR 0x5C"
    and rest: "set ps \<inter> {CHR ''%'', CHR ''_'', CHR 0x5C} = {}"
    by auto
  show ?case
  proof (cases s)
    case Nil
    with plain show ?thesis by simp
  next
    case (Cons c cs)
    with plain Cons.IH [OF rest, of cs] show ?thesis by auto
  qed
qed

lemma insert_keys:
  "map col_k (insert_on_duplicate_key_update now key val rows) =
     (if key \<in> set (map col_k rows) then map col_k rows else map col_k rows @ [key])"
  by (induction rows) auto

lemma insert_length_existing:
  "key \<in> col_k ` set rows \<Longrightarrow>
   length (insert_on_duplicate_key_update now key val rows) = length rows"
  using arg_cong [OF insert_keys [of now key val rows], of length] by simp



lemma insert_existing:
  "key \<in> col_k ` set rows \<Longrightarrow>
   \<exists>i<length rows. col_k (rows ! i) = key \<and>
     insert_on_duplicate_key_update now key val rows = rows[i := (rows ! i)\<lparr>col_v := val\<rparr>]"
proof (induction rows)
  case Nil
  then show ?case by simp
next
  case (Cons r rs)
  show ?case
  proof (cases "col_k r = key")
    case True
    then have "col_k ((r # rs) ! 0) = key \<and>
      insert_on_duplicate_key_update now key val (r # rs) =
        (r # rs)[0 := ((r # rs) ! 0)\<lparr>col_v := val\<rparr>]"
      by simp
    then show ?thesis by blast
  next
    case False
    with Cons.prems have "key \<in> col_k ` set rs" by auto
    from Cons.IH [OF this] obtain i where i: "i < length rs" "col_k (rs ! i) = key"
      "insert_on_duplicate_key_update now key val rs = rs[i := (rs ! i)\<lparr>col_v := val\<rparr>]"
      by blast
    with False have "Suc i < length (r # rs) \<and> col_k ((r # rs) ! Suc i) = key \<and>
      insert_on_duplicate_key_update now key val (r # rs) =
        (r # rs)[Suc i := ((r # rs) ! Suc i)\<lparr>col_v := val\<rparr>]"
      by simp
    then show ?thesis by blast
  qed
qed



lemma apply_operation_keeps_invariant:
  "one_record_per_key db \<Longrightarrow> one_record_per_key (apply_operation db x)"
proof (cases x)
  case EnsureSchema
  assume "one_record_per_key db"
  with EnsureSchema show ?thesis
    by (cases db) (simp_all add: prepareDatabase_def one_record_per_key_def)
next
  case (Put now key val)
  assume "one_record_per_key db"
  with Put show ?thesis
    by (cases db) (simp_all add: putKeyValue_def one_record_per_key_def insert_keys)
next
  case (Del args)
  assume "one_record_per_key db"
  with Del show ?thesis by (simp add: del_command_def Let_def)
qed simp_all

lemma run_keeps_invariant:
  "one_record_per_key db \<Longrightarrow> one_record_per_key (foldl apply_operation db xs)"
  by (induction xs arbitrary: db) (simp_all add: apply_operation_keeps_invariant)

lemma string_of_bytes_of: "string_of (bytes_of s) = s"
  by (induction s) (simp_all add: string_of_def bytes_of_def unat_of_nat take_bit_eq_mod)

section \<open>Store operations\<close>




text \<open>
  Claim C2, as amended: every key returned by \<open>ListByPrefix(prefix)\<close> is the key of a
  Record of the store, and it is this key (not the Record's value) that matches the
  pattern \<open>prefix%\<close> of the SQL operator \<open>LIKE\<close>; when the prefix contains none of the
  characters \<open>%\<close>, \<open>_\<close> and backslash, the key literally starts with the prefix.
\<close>

theorem listed_keys_match:
  assumes "listKeysWithPrefix db pfx = Inr keys" and "key \<in> set keys"
  shows "\<exists>rows r. db = Some rows \<and> r \<in> set rows \<and> col_k r = key \<and>
           sql_like (pfx @ ''%'') key \<and>
           (set pfx \<inter> {CHR ''%'', CHR ''_'', CHR 0x5C} = {} \<longrightarrow> prefix pfx key)"
proof (cases db)
  case None
  with assms(1) show ?thesis by (simp add: listKeysWithPrefix_def)
next
  case (Some rows)
  with assms(1) have
    "keys = take 1000 (map col_k (filter (\<lambda>r. sql_like (pfx @ ''%'') (col_k r)) rows))"
    by (simp add: listKeysWithPrefix_Some)
  with assms(2) have
    "key \<in> set (map col_k (filter (\<lambda>r. sql_like (pfx @ ''%'') (col_k r)) rows))"
    using in_set_takeD by fastforce
  then obtain r where r: "r \<in> set rows" "col_k r = key" "sql_like (pfx @ ''%'') key"
    by auto
  moreover have "set pfx \<inter> {CHR ''%'', CHR ''_'', CHR 0x5C} = {} \<longrightarrow> prefix pfx key"
    using r(3) sql_like_plain_prefix by blast
  ultimately show ?thesis using Some by blast
qed

theorem listed_keys_match_witness:
  "listKeysWithPrefix (Some [\<lparr>col_k = ''apple'', col_v = [], created_at = 0\<rparr>,
      \<lparr>col_k = ''apricot'', col_v = [], created_at = 1\<rparr>,
      \<lparr>col_k = ''banana'', col_v = [], created_at = 2\<rparr>]) ''a'' = Inr [''apple'', ''apricot''] \<and>
   ''apricot'' \<in> set [''apple'', ''apricot''] \<and>
   set ''a'' \<inter> {CHR ''%'', CHR ''_'', CHR 0x5C} = {} \<and> prefix ''a'' ''apricot''"
proof -
  have h: "listKeysWithPrefix (Some [\<lparr>col_k = ''apple'', col_v = [], created_at = 0\<rparr>,
      \<lparr>col_k = ''apricot'', col_v = [], created_at = 1\<rparr>,
      \<lparr>col_k = ''banana'', col_v = [], created_at = 2\<rparr>]) ''a'' = Inr [''apple'', ''apricot'']"
    by (simp add: listKeysWithPrefix_Some)
  have m: "''apricot'' \<in> set [''apple'', ''apricot'']" by simp
  have p: "set ''a'' \<inter> {CHR ''%'', CHR ''_'', CHR 0x5C} = {}" by simp
  from listed_keys_match [OF h m] p have "prefix ''a'' ''apricot''" by blast
  with h m p show ?thesis by blast
qed

text \<open>
  The statement about values fails: the key \<open>apple\<close> is listed for the prefix \<open>a\<close>
  (byte \<open>0x61\<close>) although the value stored under it is the single byte \<open>0x78\<close>.
\<close>

theorem listed_keys_counterexample:
  "listKeysWithPrefix (Some [\<lparr>col_k = ''apple'', col_v = [0x78], created_at = 0\<rparr>]) ''a''
     = Inr [''apple''] \<and>
   getKey (Some [\<lparr>col_k = ''apple'', col_v = [0x78], created_at = 0\<rparr>]) ''apple'' = Inr [0x78] \<and>
   bytes_of ''a'' = [0x61] \<and>
   \<not> prefix (bytes_of ''a'') [0x78]"
  by (simp add: listKeysWithPrefix_Some getKey_def bytes_of_def)

text \<open>
  Claim C3: for every prefix and every state of the store, \<open>ListByPrefix(prefix)\<close> returns
  at most 1000 keys; on an existing table it returns as many keys as rows match, cut at
  1000 when more than 1000 match.
\<close>

theorem list_at_most_1000:
  assumes "listKeysWithPrefix db pfx = Inr keys"
  shows "length keys \<le> 1000 \<and>
         (\<forall>rows. db = Some rows \<longrightarrow>
            length keys = min 1000 (length (filter (\<lambda>r. sql_like (pfx @ ''%'') (col_k r)) rows)))"
proof (cases db)
  case None
  with assms show ?thesis by (simp add: listKeysWithPrefix_def)
next
  case (Some rows)
  with assms show ?thesis by (auto simp: listKeysWithPrefix_Some)
qed

theorem list_at_most_1000_witness:
  "listKeysWithPrefix (Some [\<lparr>col_k = ''apple'', col_v = [], created_at = 0\<rparr>,
      \<lparr>col_k = ''banana'', col_v = [], created_at = 2\<rparr>]) ''a'' = Inr [''apple''] \<and>
   length [''apple''] \<le> 1000"
proof -
  have h: "listKeysWithPrefix (Some [\<lparr>col_k = ''apple'', col_v = [], created_at = 0\<rparr>,
      \<lparr>col_k = ''banana'', col_v = [], created_at = 2\<rparr>]) ''a'' = Inr [''apple'']"
    by (simp add: listKeysWithPrefix_Some)
  from h list_at_most_1000 [OF h] show ?thesis by blast
qed



text \<open>
  Claim C5, as amended: for every value and every state of the store, the \<open>set\<close> command
  called with an empty key fails with the validation error "key is empty" and leaves the
  store unchanged. The check is made by the command; the Store operation \<open>putKeyValue\<close>
  itself accepts an empty key.
\<close>

theorem set_empty_key_rejected:
  "set_command now db [] value_arg scanned = (Some KeyIsEmpty, db)"
  by (simp add: set_command_def)

text \<open>
  The Store operation called with an empty key on an empty table reports no error and
  creates a Record whose key is empty.
\<close>

theorem put_empty_key_counterexample:
  "putKeyValue 7 (Some []) [] [0x01] =
     (None, Some [\<lparr>col_k = [], col_v = [0x01], created_at = 7\<rparr>])"
  by (simp add: putKeyValue_def varchar_max_def blob_max_def)

text \<open>
  Claim C7: for every key that already has a Record, a successful \<open>Put(key, v2)\<close> changes
  one Record only, the one with that key, and only its value: its \<open>created_at\<close> is the one
  of the original insert (not the time \<open>now\<close> of the overwrite), and every other Record,
  the number of Records and their order are as before.
\<close>

theorem put_existing_key_frame:
  assumes "key \<in> col_k ` set rows" and "putKeyValue now (Some rows) key v2 = (None, db')"
  shows "\<exists>i<length rows. col_k (rows ! i) = key \<and>
           db' = Some (rows[i := \<lparr>col_k = key, col_v = v2, created_at = created_at (rows ! i)\<rparr>])"
proof -
  from assms(2) have db': "db' = Some (insert_on_duplicate_key_update now key v2 rows)"
    by (simp add: putKeyValue_def split: if_splits)
  from insert_existing [OF assms(1), of now v2] obtain i where
    i: "i < length rows" "col_k (rows ! i) = key"
       "insert_on_duplicate_key_update now key v2 rows = rows[i := (rows ! i)\<lparr>col_v := v2\<rparr>]"
    by blast
  from i(2) have "(rows ! i)\<lparr>col_v := v2\<rparr> =
      \<lparr>col_k = key, col_v = v2, created_at = created_at (rows ! i)\<rparr>"
    by (cases "rows ! i") simp
  with i db' show ?thesis by auto
qed

theorem put_existing_key_frame_witness:
  "''foo'' \<in> col_k ` set [\<lparr>col_k = ''baz'', col_v = [0x09], created_at = 3\<rparr>,
       \<lparr>col_k = ''foo'', col_v = [0x01], created_at = 5\<rparr>] \<and>
   putKeyValue 42 (Some [\<lparr>col_k = ''baz'', col_v = [0x09], created_at = 3\<rparr>,
       \<lparr>col_k = ''foo'', col_v = [0x01], created_at = 5\<rparr>]) ''foo'' [0x02] =
     (None, Some [\<lparr>col_k = ''baz'', col_v = [0x09], created_at = 3\<rparr>,
       \<lparr>col_k = ''foo'', col_v = [0x02], created_at = 5\<rparr>]) \<and>
   (\<exists>i<length [\<lparr>col_k = ''baz'', col_v = [0x09], created_at = 3\<rparr>,
       \<lparr>col_k = ''foo'', col_v = [0x01], created_at = 5\<rparr>].
      Some [\<lparr>col_k = ''baz'', col_v = [0x09], created_at = 3\<rparr>,
            \<lparr>col_k = ''foo'', col_v = [0x02], created_at = 5\<rparr>] =
      Some ([\<lparr>col_k = ''baz'', col_v = [0x09], created_at = 3\<rparr>,
             \<lparr>col_k = ''foo'', col_v = [0x01], created_at = 5\<rparr>]
              [i := \<lparr>col_k = ''foo'', col_v = [0x02],
                created_at = created_at ([\<lparr>col_k = ''baz'', col_v = [0x09], created_at = 3\<rparr>,
                  \<lparr>col_k = ''foo'', col_v = [0x01], created_at = 5\<rparr>] ! i)\<rparr>]))"
proof -
  have m: "''foo'' \<in> col_k ` set [\<lparr>col_k = ''baz'', col_v = [0x09], created_at = 3\<rparr>,
       \<lparr>col_k = ''foo'', col_v = [0x01], created_at = 5\<rparr>]" by simp
  have p: "putKeyValue 42 (Some [\<lparr>col_k = ''baz'', col_v = [0x09], created_at = 3\<rparr>,
       \<lparr>col_k = ''foo'', col_v = [0x01], created_at = 5\<rparr>]) ''foo'' [0x02] =
     (None, Some [\<lparr>col_k = ''baz'', col_v = [0x09], created_at = 3\<rparr>,
       \<lparr>col_k = ''foo'', col_v = [0x02], created_at = 5\<rparr>])"
    by (simp add: putKeyValue_def varchar_max_def blob_max_def)
  from put_existing_key_frame [OF m p] m p show ?thesis by blast
qed

text \<open>
  Claim C9: in every state reached from the empty store (the table absent, or present and
  empty) by any sequence of EnsureSchema, Put, Get, ListByPrefix and del, no two Records
  have the same key; and a Put on a key that has a Record leaves the number of Records and
  their keys as they are.
\<close>

theorem reachable_one_record_per_key:
  "one_record_per_key (foldl apply_operation None ops) \<and>
   one_record_per_key (foldl apply_operation (Some []) ops) \<and>
   (key \<in> col_k ` set rows \<longrightarrow>
      (\<exists>rows'. snd (putKeyValue now (Some rows) key val) = Some rows' \<and>
         length rows' = length rows \<and> map col_k rows' = map col_k rows))"
proof -
  have "one_record_per_key None"
    by (simp add: one_record_per_key_def)
  then have "one_record_per_key (foldl apply_operation None ops)"
    by (rule run_keeps_invariant)
  moreover have "one_record_per_key (Some [])"
    by (simp add: one_record_per_key_def)
  then have "one_record_per_key (foldl apply_operation (Some []) ops)"
    by (rule run_keeps_invariant)
  moreover have "key \<in> col_k ` set rows \<longrightarrow>
      (\<exists>rows'. snd (putKeyValue now (Some rows) key val) = Some rows' \<and>
         length rows' = length rows \<and> map col_k rows' = map col_k rows)"
    by (simp add: putKeyValue_def insert_keys insert_length_existing)
  ultimately show ?thesis by blast
qed

theorem reachable_one_record_per_key_witness:
  "''foo'' \<in> col_k ` set [\<lparr>col_k = ''foo'', col_v = [0x01], created_at = 5\<rparr>] \<and>
   snd (putKeyValue 9 (Some [\<lparr>col_k = ''foo'', col_v = [0x01], created_at = 5\<rparr>]) ''foo'' [0x02])
     = Some [\<lparr>col_k = ''foo'', col_v = [0x02], created_at = 5\<rparr>] \<and>
   foldl apply_operation None [EnsureSchema, Put 5 ''foo'' [0x01], Get ''foo'',
       Put 9 ''foo'' [0x02], ListByPrefix ''f'', Del [''foo'']]
     = Some [\<lparr>col_k = ''foo'', col_v = [0x02], created_at = 5\<rparr>] \<and>
   one_record_per_key (foldl apply_operation None [EnsureSchema, Put 5 ''foo'' [0x01], Get ''foo'',
       Put 9 ''foo'' [0x02], ListByPrefix ''f'', Del [''foo'']])"
proof -
  have m: "''foo'' \<in> col_k ` set [\<lparr>col_k = ''foo'', col_v = [0x01], created_at = 5\<rparr>]"
    by simp
  have p: "snd (putKeyValue 9 (Some [\<lparr>col_k = ''foo'', col_v = [0x01], created_at = 5\<rparr>])
      ''foo'' [0x02]) = Some [\<lparr>col_k = ''foo'', col_v = [0x02], created_at = 5\<rparr>]"
    by (simp add: putKeyValue_def varchar_max_def blob_max_def)
  have r: "foldl apply_operation None [EnsureSchema, Put 5 ''foo'' [0x01], Get ''foo'',
       Put 9 ''foo'' [0x02], ListByPrefix ''f'', Del [''foo'']]
     = Some [\<lparr>col_k = ''foo'', col_v = [0x02], created_at = 5\<rparr>]"
    by (simp add: prepareDatabase_def putKeyValue_def varchar_max_def blob_max_def
        del_command_def)
  from reachable_one_record_per_key [of "[EnsureSchema, Put 5 ''foo'' [0x01], Get ''foo'',
       Put 9 ''foo'' [0x02], ListByPrefix ''f'', Del [''foo'']]"] m p r
  show ?thesis by blast
qed

text \<open>
  Claim C10: the prefix goes into the \<open>LIKE\<close> pattern as it is, so its \<open>_\<close> and \<open>%\<close> act
  as wildcards. With the keys \<open>ax\<close> and \<open>bx\<close> stored, the prefix \<open>_\<close> lists both, and so
  does the prefix \<open>%x\<close>, although neither key starts with either prefix.
\<close>

theorem like_metacharacters_in_prefix:
  "listKeysWithPrefix (Some [\<lparr>col_k = ''ax'', col_v = [], created_at = 0\<rparr>,
      \<lparr>col_k = ''bx'', col_v = [], created_at = 1\<rparr>]) ''_'' = Inr [''ax'', ''bx''] \<and>
   \<not> prefix ''_'' ''ax'' \<and> \<not> prefix ''_'' ''bx'' \<and>
   listKeysWithPrefix (Some [\<lparr>col_k = ''ax'', col_v = [], created_at = 0\<rparr>,
      \<lparr>col_k = ''bx'', col_v = [], created_at = 1\<rparr>]) ''%x'' = Inr [''ax'', ''bx''] \<and>
   \<not> prefix ''%x'' ''ax'' \<and> \<not> prefix ''%x'' ''bx''"
  by (simp add: listKeysWithPrefix_Some)

section \<open>Commands\<close>

text \<open>
  Claim C6, evaluated on the code: with the Record \<open>foo\<close> = \<open>bar\<close> stored, \<open>get foo*\<close>
  without the option prints the bare key \<open>foo\<close>, exactly as with \<open>-k\<close>, because the
  option is bound with the default \<open>true\<close>; the line \<open>foo=bar\<close> appears only when the
  option is switched off with \<open>-k=false\<close>.
\<close>

theorem get_wildcard_default_output:
  "get_command None
     (Some [\<lparr>col_k = ''foo'', col_v = bytes_of ''bar'', created_at = 0\<rparr>]) ''foo*''
     = (''foo'' @ [CHR 0x0A], None) \<and>
   get_command (Some True)
     (Some [\<lparr>col_k = ''foo'', col_v = bytes_of ''bar'', created_at = 0\<rparr>]) ''foo*''
     = (''foo'' @ [CHR 0x0A], None) \<and>
   get_command (Some False)
     (Some [\<lparr>col_k = ''foo'', col_v = bytes_of ''bar'', created_at = 0\<rparr>]) ''foo*''
     = (''foo=bar'' @ [CHR 0x0A], None)"
  by (simp add: get_command_def listKeysWithPrefix_Some keysOnly_def BoolOpt_def getKey_def
      Println_def string_of_bytes_of)

text \<open>
  Claim C8: for every key and every state of the store, \<open>del <key>\<close> prints the message
  "Deleting configuration <key>..." and returns without an error and with the store as it
  was; with any other number of arguments the store is unchanged as well.
\<close>

theorem del_changes_nothing:
  "del_command db [key] =
     (Println [] (''Deleting configuration '' @ key @ ''...''), None, db) \<and>
   snd (snd (del_command db args)) = db"
  by (simp add: del_command_def Let_def)

end
